theory Spec2Isabelle
  imports Main "HOL-Library.Sublist" "HOL-Library.Log_Nat"
begin

section \<open>Text\<close>

text \<open>
  Python strings are modelled as Isabelle strings holding their UTF-8 bytes. The string
  operations of \<^verbatim>\<open>main.py\<close> (\<^verbatim>\<open>lstrip("@")\<close>, \<^verbatim>\<open>isdigit\<close>,
  \<^verbatim>\<open>int\<close>, \<^verbatim>\<open>upper\<close>, \<^verbatim>\<open>in\<close>, \<^verbatim>\<open>capitalize\<close>) are modelled on ASCII text,
  where a byte is a code point; bytes from 128 on are left alone by them.
\<close>

definition is_ascii_digit :: "char \<Rightarrow> bool" where
  "is_ascii_digit c = (48 \<le> (of_char c :: nat) \<and> (of_char c :: nat) \<le> 57)"

definition isdigit :: "string \<Rightarrow> bool" where
  \<comment> \<open>\<^verbatim>\<open>str.isdigit()\<close>: false on the empty string\<close>
  "isdigit s = (s \<noteq> [] \<and> list_all is_ascii_digit s)"

definition digit_val :: "char \<Rightarrow> int" where
  "digit_val c = int (of_char c) - 48"

definition int_of_digits :: "string \<Rightarrow> int" where
  \<comment> \<open>\<^verbatim>\<open>int(key)\<close> on a string of decimal digits\<close>
  "int_of_digits s = foldl (\<lambda>acc c. 10 * acc + digit_val c) 0 s"

definition lstrip_at :: "string \<Rightarrow> string" where
  \<comment> \<open>\<^verbatim>\<open>s.lstrip("@")\<close>\<close>
  "lstrip_at s = dropWhile (\<lambda>c. c = CHR ''@'') s"

definition upper_char :: "char \<Rightarrow> char" where
  "upper_char c =
     (if 97 \<le> (of_char c :: nat) \<and> (of_char c :: nat) \<le> 122
      then char_of ((of_char c :: nat) - 32) else c)"

definition lower_char :: "char \<Rightarrow> char" where
  "lower_char c =
     (if 65 \<le> (of_char c :: nat) \<and> (of_char c :: nat) \<le> 90
      then char_of ((of_char c :: nat) + 32) else c)"

definition upper :: "string \<Rightarrow> string" where
  "upper s = map upper_char s"

definition lower :: "string \<Rightarrow> string" where
  "lower s = map lower_char s"

definition capitalize :: "string \<Rightarrow> string" where
  "capitalize s = (case s of [] \<Rightarrow> [] | c # cs \<Rightarrow> upper_char c # lower cs)"

fun py_in :: "string \<Rightarrow> string \<Rightarrow> bool" where
  \<comment> \<open>\<^verbatim>\<open>w in s\<close> on strings\<close>
  "py_in w [] = (w = [])"
| "py_in w (c # cs) = (prefix w (c # cs) \<or> py_in w cs)"

function decimal :: "int \<Rightarrow> string" where
  \<comment> \<open>the decimal digits of a non-negative integer\<close>
  "decimal n =
     (if n < 10 then [char_of (48 + n)]
      else decimal (n div 10) @ [char_of (48 + n mod 10)])"
  by pat_completeness auto
termination
  by (relation "measure nat") auto

definition str_int :: "int \<Rightarrow> string" where
  \<comment> \<open>\<^verbatim>\<open>str(n)\<close> of a Python int\<close>
  "str_int i = (if i < 0 then CHR ''-'' # decimal (- i) else decimal i)"

section \<open>Errors\<close>

datatype error =
    HTTPException int string
  | AttributeError
  | ValueError
  | ZeroDivisionError
  | OverflowError

section \<open>The lookup key\<close>

datatype target = IntTarget int | StrTarget string

definition truthy :: "string option \<Rightarrow> bool" where
  \<comment> \<open>Python truthiness of an optional string: \<^verbatim>\<open>None\<close> and \<^verbatim>\<open>""\<close> are false\<close>
  "truthy v = (case v of None \<Rightarrow> False | Some s \<Rightarrow> s \<noteq> [])"

definition py_or :: "string option \<Rightarrow> string option \<Rightarrow> string option" where
  \<comment> \<open>\<^verbatim>\<open>a or b\<close>\<close>
  "py_or a b = (if truthy a then a else b)"

definition missing_parameter_detail :: string where
  "missing_parameter_detail =
     ''Please supply ?identifier=<username|user_id> or ?username=<username|user_id>''"

definition lookup_key :: "string option \<Rightarrow> string option \<Rightarrow> error + string" where
  "lookup_key identifier username =
     (if identifier = None \<and> username = None
      then Inl (HTTPException 400 missing_parameter_detail)
      else case py_or identifier username of
             None \<Rightarrow> Inl AttributeError
           | Some s \<Rightarrow> Inr (lstrip_at s))"

definition parse_target :: "string \<Rightarrow> target" where
  "parse_target key = (if isdigit key then IntTarget (int_of_digits key) else StrTarget key)"

section \<open>The data-center table\<close>

definition DC_LOCATIONS :: "(int \<times> string) list" where
  "DC_LOCATIONS =
    [(1, ''MIA, Miami, USA, US''), (2, ''AMS, Amsterdam, Netherlands, NL''),
     (3, ''SFO, San Francisco, USA, US''),
     (4, ''GRU, S'' @ [char_of (195 :: nat), char_of (163 :: nat)] @ ''o Paulo, Brazil, BR''),
     (5, ''DME, Moscow, Russia, RU''), (7, ''SIN, Singapore, SG''),
     (8, ''FRA, Frankfurt, Germany, DE''), (9, ''IAD, Washington DC, USA, US''),
     (10, ''BLR, Bangalore, India, IN''), (11, ''TYO, Tokyo, Japan, JP''),
     (12, ''BOM, Mumbai, India, IN''), (13, ''HKG, Hong Kong, HK''),
     (14, ''MAD, Madrid, Spain, ES''), (15, ''CDG, Paris, France, FR''),
     (16, ''MEX, Mexico City, Mexico, MX''), (17, ''YYZ, Toronto, Canada, CA''),
     (18, ''MEL, Melbourne, Australia, AU''), (19, ''DEL, Delhi, India, IN''),
     (20, ''JFK, New York, USA, US''), (21, ''LHR, London, UK, GB'')]"

definition dc_location :: "int option \<Rightarrow> string" where
  \<comment> \<open>\<^verbatim>\<open>DC_LOCATIONS.get(getattr(user, "dc_id", None), "Unknown")\<close>\<close>
  "dc_location dc_id =
     (case dc_id of
        None \<Rightarrow> ''Unknown''
      | Some k \<Rightarrow> (case map_of DC_LOCATIONS k of None \<Rightarrow> ''Unknown'' | Some v \<Rightarrow> v))"

section \<open>Dates\<close>

text \<open>
  A naive \<^verbatim>\<open>datetime\<close> is represented by the number of microseconds from
  0001-01-01T00:00:00, which is the order and the arithmetic Python gives it; a
  \<^verbatim>\<open>timedelta\<close> is a number of microseconds. The calendar functions follow
  \<^verbatim>\<open>datetime\<close>'s \<^verbatim>\<open>_ymd2ord\<close> and \<^verbatim>\<open>_ord2ymd\<close>.
\<close>

type_synonym datetime = int

definition us_per_day :: int where
  "us_per_day = 86400000000"

definition is_leap :: "int \<Rightarrow> bool" where
  "is_leap y = (y mod 4 = 0 \<and> (y mod 100 \<noteq> 0 \<or> y mod 400 = 0))"

definition days_before_year :: "int \<Rightarrow> int" where
  "days_before_year year = (let y = year - 1 in y * 365 + y div 4 - y div 100 + y div 400)"

definition days_in_month :: "int \<Rightarrow> int \<Rightarrow> int" where
  "days_in_month year month =
     (if month = 2 then (if is_leap year then 29 else 28)
      else if month = 4 \<or> month = 6 \<or> month = 9 \<or> month = 11 then 30 else 31)"

definition days_before_month :: "int \<Rightarrow> int \<Rightarrow> int" where
  "days_before_month year month = sum_list (map (days_in_month year) [1 .. month - 1])"

definition ymd2ord :: "int \<Rightarrow> int \<Rightarrow> int \<Rightarrow> int" where
  "ymd2ord year month day = days_before_year year + days_before_month year month + day"

definition mk_datetime :: "int \<Rightarrow> int \<Rightarrow> int \<Rightarrow> datetime" where
  \<comment> \<open>\<^verbatim>\<open>datetime(year, month, day)\<close>\<close>
  "mk_datetime year month day = (ymd2ord year month day - 1) * us_per_day"

definition max_ordinal :: int where
  \<comment> \<open>the ordinal of 9999-12-31\<close>
  "max_ordinal = 3652059"

definition ord2ymd :: "int \<Rightarrow> int \<times> int \<times> int" where
  "ord2ymd ordinal =
     (let n = ordinal - 1;
          n400 = n div 146097; n = n mod 146097;
          n100 = n div 36524; n = n mod 36524;
          n4 = n div 1461; n = n mod 1461;
          n1 = n div 365; n = n mod 365;
          year = n400 * 400 + 1 + n100 * 100 + n4 * 4 + n1
      in if n1 = 4 \<or> n100 = 4 then (year - 1, 12, 31)
         else
           let leapyear = (n1 = 3 \<and> (n4 \<noteq> 24 \<or> n100 = 3));
               month = (n + 50) div 32;
               preceding = sum_list (map (days_in_month (if leapyear then 4 else 1)) [1 .. month - 1])
           in if preceding > n
              then (year, month - 1,
                    n - (preceding - days_in_month (if leapyear then 4 else 1) (month - 1)) + 1)
              else (year, month, n - preceding + 1))"

definition month_abbr :: "int \<Rightarrow> string" where
  "month_abbr m =
     (if 1 \<le> m \<and> m \<le> 12
      then [''Jan'', ''Feb'', ''Mar'', ''Apr'', ''May'', ''Jun'',
            ''Jul'', ''Aug'', ''Sep'', ''Oct'', ''Nov'', ''Dec''] ! nat (m - 1)
      else [])"

definition two_digits :: "int \<Rightarrow> string" where
  "two_digits d = (if d < 10 then CHR ''0'' # str_int d else str_int d)"

definition strftime_b_d_Y :: "datetime \<Rightarrow> string" where
  \<comment> \<open>\<^verbatim>\<open>t.strftime('%b %d, %Y')\<close> in the C locale, for years of four digits\<close>
  "strftime_b_d_Y t =
     (case ord2ymd (t div us_per_day + 1) of
        (y, m, d) \<Rightarrow> month_abbr m @ '' '' @ two_digits d @ '', '' @ str_int y)"

section \<open>Floating point\<close>

text \<open>
  A finite double is represented by the rational number it denotes. \<open>fl\<close> rounds a
  rational to the nearest double, ties to even, as IEEE 754 arithmetic does after every
  operation: 53 significant bits, and the spacing \<open>2 powi (-1074)\<close> below the normal
  range.
\<close>

definition round_half_even :: "rat \<Rightarrow> int" where
  "round_half_even x =
     (let f = \<lfloor>x\<rfloor>; r = x - of_int f
      in if r < 1 / 2 then f else if 1 / 2 < r then f + 1 else if even f then f else f + 1)"

definition expo :: "rat \<Rightarrow> int" where
  \<comment> \<open>the exponent \<open>e\<close> with \<open>2 powi e \<le> \<bar>x\<bar> < 2 powi (e + 1)\<close>, for \<open>x \<noteq> 0\<close>\<close>
  "expo x =
     (case quotient_of \<bar>x\<bar> of
        (p, q) \<Rightarrow> let e = bitlen p - bitlen q in if 2 powi e \<le> \<bar>x\<bar> then e else e - 1)"

definition ulp_exp :: "rat \<Rightarrow> int" where
  "ulp_exp x = max (expo x - 52) (- 1074)"

definition fl :: "rat \<Rightarrow> rat" where
  "fl x = (if x = 0 then 0
           else of_int (round_half_even (x / 2 powi ulp_exp x)) * 2 powi ulp_exp x)"

definition truediv :: "int \<Rightarrow> int \<Rightarrow> error + rat" where
  \<comment> \<open>\<^verbatim>\<open>a / b\<close> on Python ints: the correctly rounded quotient\<close>
  "truediv a b =
     (if b = 0 then Inl ZeroDivisionError
      else let q = fl (of_int a / of_int b)
           in if 2 powi 1024 \<le> \<bar>q\<bar> then Inl OverflowError else Inr q)"

definition trunc :: "rat \<Rightarrow> int" where
  "trunc x = (if 0 \<le> x then \<lfloor>x\<rfloor> else \<lceil>x\<rceil>)"

definition days_us :: "rat \<Rightarrow> int" where
  \<comment> \<open>the microseconds of \<^verbatim>\<open>timedelta(days=x)\<close> for a float \<open>x\<close>: the whole days are
      converted exactly, the fraction of a day in double arithmetic, and the sum is
      rounded to a whole microsecond, ties to even\<close>
  "days_us x =
     (let intpart = trunc x;
          fracpart = x - of_int intpart
      in round_half_even (of_int (intpart * us_per_day) + fl (of_int us_per_day * fracpart)))"

definition timedelta_days :: "rat \<Rightarrow> error + int" where
  \<comment> \<open>\<^verbatim>\<open>timedelta(days=x)\<close>: at most 999999999 days either way\<close>
  "timedelta_days x =
     (let us = days_us x
      in if - 999999999 \<le> us div us_per_day \<and> us div us_per_day \<le> 999999999
         then Inr us else Inl OverflowError)"

definition datetime_add :: "datetime \<Rightarrow> int \<Rightarrow> error + datetime" where
  \<comment> \<open>\<^verbatim>\<open>t + timedelta\<close>: the result must lie in the years 1 to 9999\<close>
  "datetime_add t us =
     (if 0 \<le> t + us \<and> t + us < max_ordinal * us_per_day then Inr (t + us)
      else Inl OverflowError)"

section \<open>The account-age estimator\<close>

fun min_from :: "('a \<Rightarrow> int) \<Rightarrow> 'a \<Rightarrow> 'a list \<Rightarrow> 'a" where
  "min_from key best [] = best"
| "min_from key best (x # xs) = min_from key (if key x < key best then x else best) xs"

definition py_min :: "('a \<Rightarrow> int) \<Rightarrow> 'a list \<Rightarrow> error + 'a" where
  \<comment> \<open>\<^verbatim>\<open>min(xs, key=key)\<close>: the first element with the least key\<close>
  "py_min key xs = (case xs of [] \<Rightarrow> Inl ValueError | x # rest \<Rightarrow> Inr (min_from key x rest))"

definition reference_points :: "(int \<times> datetime) list" where
  "reference_points =
     [(100000000, mk_datetime 2013 8 1),
      (1273841502, mk_datetime 2020 8 13),
      (1500000000, mk_datetime 2021 5 1),
      (2000000000, mk_datetime 2022 12 1)]"

definition closest_reference :: "int \<Rightarrow> error + (int \<times> datetime)" where
  "closest_reference user_id = py_min (\<lambda>x. \<bar>fst x - user_id\<bar>) reference_points"

definition estimate_account_creation_date :: "int \<Rightarrow> error + datetime" where
  "estimate_account_creation_date user_id =
     (case closest_reference user_id of
        Inl e \<Rightarrow> Inl e
      | Inr (closest_user_id, closest_date) \<Rightarrow>
          (case truediv (user_id - closest_user_id) 20000000 of
             Inl e \<Rightarrow> Inl e
           | Inr days_diff \<Rightarrow>
               (case timedelta_days days_diff of
                  Inl e \<Rightarrow> Inl e
                | Inr delta \<Rightarrow> datetime_add closest_date delta)))"

section \<open>The platform client\<close>

text \<open>
  The Pyrogram objects are records of the attributes \<^verbatim>\<open>get_user_info\<close> reads. An
  attribute used only for its truth value is a \<open>bool\<close>; an attribute that may be
  \<^verbatim>\<open>None\<close> is an \<open>option\<close>; \<open>u_status\<close> is \<^verbatim>\<open>str(user.status)\<close> when the
  status is set. The client is a record of its three calls, each returning its result or
  the exception it raises, with the exception's text.
\<close>

record user =
  u_id :: int
  u_first_name :: "string option"
  u_last_name :: "string option"
  u_username :: "string option"
  u_is_bot :: bool
  u_is_premium :: bool
  u_is_verified :: bool
  u_is_scam :: bool
  u_is_fake :: bool
  u_dc_id :: "int option"
  u_status :: "string option"
  u_photo :: bool

record chat =
  c_id :: int
  c_type_value :: string
  c_title :: "string option"
  c_username :: "string option"
  c_description :: "string option"
  c_is_verified :: bool
  c_is_scam :: bool
  c_is_fake :: bool
  c_photo :: bool

datatype bot_error = PeerIdInvalid string | OtherError string

fun error_text :: "bot_error \<Rightarrow> string" where
  "error_text (PeerIdInvalid m) = m"
| "error_text (OtherError m) = m"

record client =
  get_users :: "target \<Rightarrow> bot_error + user"
  get_chat :: "target \<Rightarrow> bot_error + chat"
  get_chat_members_count :: "int \<Rightarrow> bot_error + int"
  relativedelta_now :: "datetime \<Rightarrow> int \<times> int \<times> int"
    \<comment> \<open>years, months and days of \<^verbatim>\<open>relativedelta(datetime.now(), creation_date)\<close>\<close>

datatype call = GetUsers target | GetChat target | GetChatMembersCount int

section \<open>Formatting\<close>

definition is_real_bot :: "user \<Rightarrow> bool" where
  "is_real_bot u = u_is_bot u"

definition calculate_account_age :: "client \<Rightarrow> datetime \<Rightarrow> string" where
  "calculate_account_age app_bot creation_date =
     (case relativedelta_now app_bot creation_date of
        (years, months, days) \<Rightarrow>
          str_int years @ '' years, '' @ str_int months @ '' months, '' @ str_int days @ '' days'')"

definition user_status :: "string option \<Rightarrow> string" where
  "user_status st =
     (case st of
        None \<Rightarrow> ''Unknown''
      | Some raw \<Rightarrow>
          if raw = [] then ''Unknown''
          else
            (let status_str = upper raw
             in if py_in ''ONLINE'' status_str then ''Online''
                else if py_in ''OFFLINE'' status_str then ''Offline''
                else if py_in ''RECENTLY'' status_str then ''Recently online''
                else ''Unknown''))"

definition str_or :: "string option \<Rightarrow> string \<Rightarrow> string" where
  \<comment> \<open>\<^verbatim>\<open>v or d\<close> for an optional string \<open>v\<close>\<close>
  "str_or v d = (case v of None \<Rightarrow> d | Some s \<Rightarrow> if s = [] then d else s)"

definition str_opt :: "string option \<Rightarrow> string" where
  \<comment> \<open>\<^verbatim>\<open>str(v)\<close> inside an f-string\<close>
  "str_opt v = (case v of None \<Rightarrow> ''None'' | Some s \<Rightarrow> s)"

definition userpic_url :: "string option \<Rightarrow> string" where
  "userpic_url username = ''https://t.me/i/userpic/320/'' @ str_opt username @ ''.jpg''"

definition user_profile_pic_url :: "user \<Rightarrow> string" where
  "user_profile_pic_url u =
     (if u_photo u \<and> truthy (u_username u) then userpic_url (u_username u)
      else ''No Profile Picture'')"

definition chat_profile_pic :: "chat \<Rightarrow> string" where
  "chat_profile_pic c =
     (if truthy (c_username c) then userpic_url (c_username c) else ''No Profile Picture'')"

definition username_display :: "user \<Rightarrow> string" where
  "username_display u =
     (if truthy (u_username u) then CHR ''@'' # str_opt (u_username u) else ''No Username'')"

definition yes_no :: "bool \<Rightarrow> string" where
  "yes_no b = (if b then ''Yes'' else ''No'')"

definition arrow :: string where
  \<comment> \<open>U+21AF\<close>
  "arrow = [char_of (226 :: nat), char_of (134 :: nat), char_of (175 :: nat)]"

definition title_open :: string where
  \<comment> \<open>U+2718 U+300C and a space\<close>
  "title_open = [char_of (226 :: nat), char_of (156 :: nat), char_of (152 :: nat),
                 char_of (227 :: nat), char_of (128 :: nat), char_of (140 :: nat), CHR '' '']"

definition title_close :: string where
  \<comment> \<open>a space and U+300D\<close>
  "title_close = [CHR '' '', char_of (227 :: nat), char_of (128 :: nat), char_of (141 :: nat)]"

definition block :: "string list \<Rightarrow> string" where
  \<comment> \<open>a triple-quoted template: every line after a newline, then the indentation
      before the closing quotes\<close>
  "block ls = concat (map (\<lambda>l. char_of (10 :: nat) # l) ls)
              @ char_of (10 :: nat) # replicate 12 (CHR '' '')"

definition name_line :: "user \<Rightarrow> string" where
  "name_line u =
     arrow @ '' Name: '' @ str_or (u_first_name u) [] @ '' '' @ str_or (u_last_name u) []"

definition format_user :: "user \<Rightarrow> datetime \<Rightarrow> string \<Rightarrow> string" where
  "format_user u creation_date account_age =
     block
      [title_open @ (if is_real_bot u then ''Bot Info'' else ''User Info'') @ title_close,
       name_line u,
       '' '' @ arrow @ '' Username: '' @ username_display u,
       arrow @ '' User ID: '' @ str_int (u_id u),
       arrow @ '' Premium: '' @ yes_no (u_is_premium u),
       arrow @ '' Verified: '' @ yes_no (u_is_verified u),
       arrow @ '' Scam: '' @ yes_no (u_is_scam u),
       arrow @ '' Fake: '' @ yes_no (u_is_fake u),
       arrow @ '' Data Center: '' @ dc_location (u_dc_id u),
       arrow @ '' Status: '' @ user_status (u_status u),
       arrow @ '' Created: '' @ strftime_b_d_Y creation_date,
       arrow @ '' Age: '' @ account_age,
       arrow @ '' Profile Pic URL: '' @ user_profile_pic_url u]"

definition chat_username_line :: "chat \<Rightarrow> string" where
  "chat_username_line c = arrow @ '' Username: @'' @ str_or (c_username c) ''N/A''"

definition chat_description_line :: "chat \<Rightarrow> string" where
  "chat_description_line c =
     arrow @ '' Description: '' @ str_or (c_description c) ''No description''"

definition format_chat :: "string \<Rightarrow> string \<Rightarrow> chat \<Rightarrow> string \<Rightarrow> string" where
  \<comment> \<open>the group and the channel templates differ in the heading and the type line\<close>
  "format_chat heading type_text c members_count =
     block
      [title_open @ heading @ '' '' @ arrow @ title_close,
       arrow @ '' Title: '' @ str_opt (c_title c),
       chat_username_line c,
       arrow @ '' Chat ID: '' @ str_int (c_id c),
       arrow @ '' Type: '' @ type_text,
       arrow @ '' Members Count: '' @ members_count,
       [],
       arrow @ '' Verified: '' @ yes_no (c_is_verified c),
       arrow @ '' Scam: '' @ yes_no (c_is_scam c),
       arrow @ '' Fake: '' @ yes_no (c_is_fake c),
       arrow @ '' Safety Status: '' @ (if c_is_scam c then ''Unsafe'' else ''Safe''),
       [],
       chat_description_line c,
       arrow @ '' Profile Pic URL: '' @ chat_profile_pic c]"

section \<open>The endpoint\<close>

definition no_access_detail :: string where
  "no_access_detail =
     ''Bot has no access to this user. The user must start the bot or share a ''
     @ ''common group/channel with the bot before their profile can be fetched.''"

definition members_count_text :: "client \<Rightarrow> int \<Rightarrow> string" where
  "members_count_text app_bot chat_id =
     (case get_chat_members_count app_bot chat_id of Inl e \<Rightarrow> ''Unknown'' | Inr n \<Rightarrow> str_int n)"

definition respond_user :: "client \<Rightarrow> user \<Rightarrow> error + string" where
  "respond_user app_bot u =
     (case estimate_account_creation_date (u_id u) of
        Inl e \<Rightarrow> Inl e
      | Inr creation_date \<Rightarrow>
          Inr (format_user u creation_date (calculate_account_age app_bot creation_date)))"

definition respond_chat :: "client \<Rightarrow> chat \<Rightarrow> call list \<times> (error + string)" where
  "respond_chat app_bot c =
     (let entity_type = c_type_value c
      in if entity_type = ''group'' \<or> entity_type = ''supergroup''
         then ([GetChatMembersCount (c_id c)],
               Inr (format_chat ''Group Information'' (capitalize entity_type) c
                      (members_count_text app_bot (c_id c))))
         else if entity_type = ''channel''
         then ([GetChatMembersCount (c_id c)],
               Inr (format_chat ''Channel Information'' ''Channel'' c
                      (members_count_text app_bot (c_id c))))
         else ([], Inr ''Unknown entity.''))"

definition get_user_info ::
  "client \<Rightarrow> string option \<Rightarrow> string option \<Rightarrow> call list \<times> (error + string)" where
  \<comment> \<open>returns the client calls made, in order, and the response or the exception\<close>
  "get_user_info app_bot identifier username =
     (case lookup_key identifier username of
        Inl e \<Rightarrow> ([], Inl e)
      | Inr key \<Rightarrow>
          (let target = parse_target key
           in case get_users app_bot target of
                Inr u \<Rightarrow> ([GetUsers target], respond_user app_bot u)
              | Inl (PeerIdInvalid m) \<Rightarrow>
                  ([GetUsers target], Inl (HTTPException 403 no_access_detail))
              | Inl (OtherError m) \<Rightarrow>
                  (case get_chat app_bot target of
                     Inl e \<Rightarrow>
                       ([GetUsers target, GetChat target],
                        Inl (HTTPException 400 (''Error: '' @ error_text e)))
                   | Inr c \<Rightarrow>
                       (case respond_chat app_bot c of
                          (calls, r) \<Rightarrow> ([GetUsers target, GetChat target] @ calls, r)))))"

section \<open>Notions used in the statements\<close>



definition group_without_photo :: chat where
  "group_without_photo =
     \<lparr>c_id = - 1001234567890, c_type_value = ''supergroup'', c_title = Some ''Study group'',
      c_username = Some ''studygroup'', c_description = None, c_is_verified = False,
      c_is_scam = False, c_is_fake = False, c_photo = False\<rparr>"

definition group_client :: client where
  "group_client =
     \<lparr>get_users = (\<lambda>t. Inl (OtherError ''Username not occupied'')),
      get_chat = (\<lambda>t. Inr group_without_photo),
      get_chat_members_count = (\<lambda>i. Inr 12),
      relativedelta_now = (\<lambda>t. (0, 0, 0))\<rparr>"


text \<open>Notions of the proofs about the estimator.\<close>

definition to_grid :: "int \<Rightarrow> rat \<Rightarrow> rat" where
  "to_grid k x = of_int (round_half_even (x / 2 powi k)) * 2 powi k"

definition exact_us :: "rat \<Rightarrow> rat" where
  "exact_us x = of_int (trunc x * us_per_day) + fl (of_int us_per_day * (x - of_int (trunc x)))"

definition segment_reference :: "int \<Rightarrow> int \<times> datetime" where
  "segment_reference u =
     (if u \<le> 686920751 then (100000000, mk_datetime 2013 8 1)
      else if u \<le> 1386920751 then (1273841502, mk_datetime 2020 8 13)
      else if u \<le> 1750000000 then (1500000000, mk_datetime 2021 5 1)
      else (2000000000, mk_datetime 2022 12 1))"

definition offset_us :: "int \<Rightarrow> int" where
  "offset_us d = days_us (fl (of_int d / 20000000))"

definition raw_estimate :: "int \<Rightarrow> int" where
  "raw_estimate u = snd (segment_reference u) + offset_us (u - fst (segment_reference u))"

section \<open>Text: lemmas\<close>


lemma lstrip_at_decomp:
  "s = replicate (length (takeWhile (\<lambda>c. c = CHR ''@'') s)) (CHR ''@'') @ lstrip_at s"
proof -
  have "takeWhile (\<lambda>c. c = CHR ''@'') s
          = replicate (length (takeWhile (\<lambda>c. c = CHR ''@'') s)) (CHR ''@'')"
    by (induction s) simp_all
  then show ?thesis
    unfolding lstrip_at_def by (metis takeWhile_dropWhile_id)
qed

lemma lstrip_at_no_at: "\<not> prefix ''@'' (lstrip_at s)"
  unfolding lstrip_at_def by (induction s) simp_all











section \<open>Rounding: lemmas\<close>

lemma rhe_cases: "round_half_even x = \<lfloor>x\<rfloor> \<or> round_half_even x = \<lfloor>x\<rfloor> + 1"
  by (simp add: round_half_even_def Let_def)

lemma rhe_of_int: "round_half_even (of_int n) = n"
  by (simp add: round_half_even_def)

lemma rhe_mono: "x \<le> y \<Longrightarrow> round_half_even x \<le> round_half_even y"
proof -
  assume xy: "x \<le> y"
  then have f: "\<lfloor>x\<rfloor> \<le> \<lfloor>y\<rfloor>" by (rule floor_mono)
  show ?thesis
  proof (cases "\<lfloor>x\<rfloor> = \<lfloor>y\<rfloor>")
    case True
    with xy show ?thesis
      by (auto simp: round_half_even_def Let_def)
  next
    case False
    with f have "\<lfloor>x\<rfloor> + 1 \<le> \<lfloor>y\<rfloor>" by simp
    with rhe_cases [of x] rhe_cases [of y] show ?thesis by linarith
  qed
qed

lemma pow2_bitlen:
  assumes "0 < p"
  shows "(2::rat) powi (bitlen p - 1) \<le> of_int p" "of_int p < (2::rat) powi bitlen p"
proof -
  from assms have b: "1 \<le> bitlen p"
    using bitlen_eq_zero_iff [of p] bitlen_nonneg [of p] by linarith
  from bitlen_bounds [OF assms]
  have "(2::int) ^ nat (bitlen p - 1) \<le> p" "p < 2 ^ nat (bitlen p)" by simp_all
  then have "(of_int (2 ^ nat (bitlen p - 1)) :: rat) \<le> of_int p"
    "(of_int p :: rat) < of_int (2 ^ nat (bitlen p))"
    by (simp_all only: of_int_le_iff of_int_less_iff)
  with b show "(2::rat) powi (bitlen p - 1) \<le> of_int p" "of_int p < (2::rat) powi bitlen p"
    by (simp_all add: power_int_def)
qed

lemma expo_bounds:
  assumes "x \<noteq> 0"
  shows "2 powi expo x \<le> \<bar>x\<bar>" "\<bar>x\<bar> < 2 powi (expo x + 1)"
proof -
  obtain p q where pq: "quotient_of \<bar>x\<bar> = (p, q)" by (cases "quotient_of \<bar>x\<bar>")
  then have q: "0 < q" by (rule quotient_of_denom_pos)
  from pq have x: "\<bar>x\<bar> = of_int p / of_int q" by (rule quotient_of_div)
  from assms have "0 < \<bar>x\<bar>" by simp
  with x q have p: "0 < p"
    by (simp add: zero_less_divide_iff)
  let ?e = "bitlen p - bitlen q"
  have qpos: "(0::rat) < of_int q" using q by simp
  have "\<bar>x\<bar> < 2 powi bitlen p / of_int q"
    unfolding x using pow2_bitlen(2) [OF p] qpos by (simp add: divide_strict_right_mono)
  also have "\<dots> \<le> 2 powi bitlen p / 2 powi (bitlen q - 1)"
    using pow2_bitlen(1) [OF q] by (simp add: frac_le)
  also have "\<dots> = 2 powi (?e + 1)"
    by (simp add: power_int_diff [symmetric] algebra_simps)
  finally have up: "\<bar>x\<bar> < 2 powi (?e + 1)" .
  have e: "expo x = (if 2 powi ?e \<le> \<bar>x\<bar> then ?e else ?e - 1)"
    by (simp add: expo_def pq Let_def)
  have "2 powi (?e - 1) = 2 powi (bitlen p - 1) / (2::rat) powi bitlen q"
    by (simp add: power_int_diff [symmetric] algebra_simps)
  also have "\<dots> \<le> of_int p / 2 powi bitlen q"
    using pow2_bitlen(1) [OF p] by (simp add: divide_right_mono)
  also have "\<dots> \<le> of_int p / of_int q"
    using pow2_bitlen(2) [OF q] p qpos by (simp add: frac_le)
  finally have lo: "2 powi (?e - 1) \<le> \<bar>x\<bar>" unfolding x .
  from e up lo show "2 powi expo x \<le> \<bar>x\<bar>" "\<bar>x\<bar> < 2 powi (expo x + 1)"
    by (auto split: if_splits)
qed

lemma expo_le:
  assumes "x \<noteq> 0" "y \<noteq> 0" "\<bar>x\<bar> \<le> \<bar>y\<bar>"
  shows "expo x \<le> expo y"
proof (rule ccontr)
  assume "\<not> expo x \<le> expo y"
  then have "expo y + 1 \<le> expo x" by simp
  then have "(2::rat) powi (expo y + 1) \<le> 2 powi expo x"
    by (rule power_int_increasing) simp
  also have "\<dots> \<le> \<bar>x\<bar>" using assms(1) by (rule expo_bounds)
  also have "\<dots> \<le> \<bar>y\<bar>" by fact
  also have "\<dots> < 2 powi (expo y + 1)" using assms(2) by (rule expo_bounds)
  finally show False by simp
qed

lemma ulp_exp_le:
  "x \<noteq> 0 \<Longrightarrow> y \<noteq> 0 \<Longrightarrow> \<bar>x\<bar> \<le> \<bar>y\<bar> \<Longrightarrow> ulp_exp x \<le> ulp_exp y"
  using expo_le [of x y] by (simp add: ulp_exp_def)

lemma fl_to_grid: "x \<noteq> 0 \<Longrightarrow> fl x = to_grid (ulp_exp x) x"
  by (simp add: fl_def to_grid_def)

lemma pow2_pos: "(0::rat) < 2 powi k"
  by (simp add: zero_less_power_int)

lemma to_grid_le:
  assumes "x \<le> of_int m * 2 powi k"
  shows "to_grid k x \<le> of_int m * 2 powi k"
proof -
  from assms have "x / 2 powi k \<le> of_int m"
    by (simp add: pos_divide_le_eq pow2_pos)
  then have "round_half_even (x / 2 powi k) \<le> m"
    using rhe_mono [of "x / 2 powi k" "of_int m"] by (simp add: rhe_of_int)
  then have "(of_int (round_half_even (x / 2 powi k)) :: rat) \<le> of_int m"
    by (simp only: of_int_le_iff)
  then show ?thesis
    unfolding to_grid_def using pow2_pos [of k] by (simp add: mult_right_mono)
qed

lemma to_grid_ge:
  assumes "of_int m * 2 powi k \<le> x"
  shows "of_int m * 2 powi k \<le> to_grid k x"
proof -
  from assms have "of_int m \<le> x / 2 powi k"
    by (simp add: pos_le_divide_eq pow2_pos)
  then have "m \<le> round_half_even (x / 2 powi k)"
    using rhe_mono [of "of_int m" "x / 2 powi k"] by (simp add: rhe_of_int)
  then have "(of_int m :: rat) \<le> of_int (round_half_even (x / 2 powi k))"
    by (simp only: of_int_le_iff)
  then show ?thesis
    unfolding to_grid_def using pow2_pos [of k] by (simp add: mult_right_mono)
qed

lemma to_grid_mono: "x \<le> y \<Longrightarrow> to_grid k x \<le> to_grid k y"
proof -
  assume "x \<le> y"
  then have "x / 2 powi k \<le> y / 2 powi k"
    using pow2_pos [of k] by (simp add: divide_right_mono)
  then have "round_half_even (x / 2 powi k) \<le> round_half_even (y / 2 powi k)"
    by (rule rhe_mono)
  then have "(of_int (round_half_even (x / 2 powi k)) :: rat)
             \<le> of_int (round_half_even (y / 2 powi k))"
    by (simp only: of_int_le_iff)
  then show ?thesis
    unfolding to_grid_def using pow2_pos [of k] by (simp add: mult_right_mono)
qed

lemma pow2_on_grid:
  assumes "k \<le> e"
  shows "(2::rat) powi e = of_int (2 ^ nat (e - k)) * 2 powi k"
proof -
  have "(2::rat) powi e = 2 powi ((e - k) + k)" by simp
  also have "\<dots> = 2 powi (e - k) * 2 powi k"
    by (rule power_int_add) simp
  also have "(2::rat) powi (e - k) = of_int (2 ^ nat (e - k))"
    using assms by (simp add: power_int_def)
  finally show ?thesis .
qed

lemma fl_nonneg: "0 \<le> x \<Longrightarrow> 0 \<le> fl x"
  using to_grid_ge [of 0 "ulp_exp x" x] by (cases "x = 0") (simp_all add: fl_def to_grid_def)

lemma fl_nonpos: "x \<le> 0 \<Longrightarrow> fl x \<le> 0"
  using to_grid_le [of x 0 "ulp_exp x"] by (cases "x = 0") (simp_all add: fl_def to_grid_def)

lemma fl_mono_pos:
  assumes "0 < x" "x \<le> y"
  shows "fl x \<le> fl y"
proof -
  from assms have nz: "x \<noteq> 0" "y \<noteq> 0" and ab: "\<bar>x\<bar> \<le> \<bar>y\<bar>" by simp_all
  have k: "ulp_exp x \<le> ulp_exp y" using nz ab by (rule ulp_exp_le)
  show ?thesis
  proof (cases "ulp_exp x = ulp_exp y")
    case True
    with to_grid_mono [OF assms(2), of "ulp_exp y"] nz show ?thesis
      by (simp add: fl_to_grid)
  next
    case False
    with k have lt: "ulp_exp x < ulp_exp y" by simp
    then have ky: "ulp_exp y = expo y - 52" and ex: "expo x + 1 \<le> expo y"
      by (simp_all add: ulp_exp_def max_def split: if_splits)
    have kx: "ulp_exp x \<le> expo y" using lt ky by simp
    have "x \<le> 2 powi (expo x + 1)"
      using expo_bounds(2) [OF nz(1)] assms(1) by simp
    also have "\<dots> \<le> 2 powi expo y"
      using ex by (rule power_int_increasing) simp
    finally have "x \<le> of_int (2 ^ nat (expo y - ulp_exp x)) * 2 powi ulp_exp x"
      using pow2_on_grid [OF kx] by simp
    then have "to_grid (ulp_exp x) x \<le> of_int (2 ^ nat (expo y - ulp_exp x)) * 2 powi ulp_exp x"
      by (rule to_grid_le)
    then have a: "fl x \<le> 2 powi expo y"
      using pow2_on_grid [OF kx] nz by (simp add: fl_to_grid)
    have ky': "ulp_exp y \<le> expo y" using ky by simp
    have "2 powi expo y \<le> y"
      using expo_bounds(1) [OF nz(2)] assms by simp
    then have "of_int (2 ^ nat (expo y - ulp_exp y)) * 2 powi ulp_exp y \<le> y"
      using pow2_on_grid [OF ky'] by simp
    then have "of_int (2 ^ nat (expo y - ulp_exp y)) * 2 powi ulp_exp y \<le> to_grid (ulp_exp y) y"
      by (rule to_grid_ge)
    then have b: "2 powi expo y \<le> fl y"
      using pow2_on_grid [OF ky'] nz by (simp add: fl_to_grid)
    from a b show ?thesis by simp
  qed
qed

lemma fl_mono_neg:
  assumes "y < 0" "x \<le> y"
  shows "fl x \<le> fl y"
proof -
  from assms have nz: "y \<noteq> 0" "x \<noteq> 0" and ab: "\<bar>y\<bar> \<le> \<bar>x\<bar>" by simp_all
  have k: "ulp_exp y \<le> ulp_exp x" using nz ab by (rule ulp_exp_le)
  show ?thesis
  proof (cases "ulp_exp x = ulp_exp y")
    case True
    with to_grid_mono [OF assms(2), of "ulp_exp y"] nz show ?thesis
      by (simp add: fl_to_grid)
  next
    case False
    with k have lt: "ulp_exp y < ulp_exp x" by simp
    then have kx: "ulp_exp x = expo x - 52" and ey: "expo y + 1 \<le> expo x"
      by (simp_all add: ulp_exp_def max_def split: if_splits)
    have kx': "ulp_exp x \<le> expo x" using kx by simp
    have ky: "ulp_exp y \<le> expo x" using lt kx by simp
    have "2 powi expo x \<le> - x"
      using expo_bounds(1) [OF nz(2)] assms by simp
    then have "x \<le> of_int (- (2 ^ nat (expo x - ulp_exp x))) * 2 powi ulp_exp x"
      using pow2_on_grid [OF kx'] by simp
    then have "to_grid (ulp_exp x) x \<le> of_int (- (2 ^ nat (expo x - ulp_exp x))) * 2 powi ulp_exp x"
      by (rule to_grid_le)
    then have a: "fl x \<le> - (2 powi expo x)"
      using pow2_on_grid [OF kx'] nz by (simp add: fl_to_grid)
    have "- y \<le> 2 powi (expo y + 1)"
      using expo_bounds(2) [OF nz(1)] assms(1) by simp
    also have "\<dots> \<le> 2 powi expo x"
      using ey by (rule power_int_increasing) simp
    finally have "of_int (- (2 ^ nat (expo x - ulp_exp y))) * 2 powi ulp_exp y \<le> y"
      using pow2_on_grid [OF ky] by simp
    then have "of_int (- (2 ^ nat (expo x - ulp_exp y))) * 2 powi ulp_exp y \<le> to_grid (ulp_exp y) y"
      by (rule to_grid_ge)
    then have b: "- (2 powi expo x) \<le> fl y"
      using pow2_on_grid [OF ky] nz by (simp add: fl_to_grid)
    from a b show ?thesis by simp
  qed
qed

lemma fl_mono: "x \<le> y \<Longrightarrow> fl x \<le> fl y"
proof -
  assume xy: "x \<le> y"
  consider "0 < x" | "y < 0" | "x \<le> 0" "0 \<le> y" by linarith
  then show ?thesis
  proof cases
    case 1 with xy show ?thesis by (simp add: fl_mono_pos)
  next
    case 2 with xy show ?thesis by (simp add: fl_mono_neg)
  next
    case 3
    then have "fl x \<le> 0" "0 \<le> fl y" by (simp_all add: fl_nonpos fl_nonneg)
    then show ?thesis by simp
  qed
qed

section \<open>The estimator: lemmas\<close>


lemma closest_reference_segments:
  "closest_reference u =
     Inr (if u \<le> 686920751 then (100000000, mk_datetime 2013 8 1)
          else if u \<le> 1386920751 then (1273841502, mk_datetime 2020 8 13)
          else if u \<le> 1750000000 then (1500000000, mk_datetime 2021 5 1)
          else (2000000000, mk_datetime 2022 12 1))"
  by (simp add: closest_reference_def py_min_def reference_points_def) arith

lemma trunc_nonneg:
  assumes "0 \<le> x"
  shows "of_int (trunc x) \<le> x" "x - of_int (trunc x) < 1" "0 \<le> trunc x"
  using assms by (simp_all add: trunc_def) linarith

lemma trunc_neg:
  assumes "x < 0"
  shows "x \<le> of_int (trunc x)" "of_int (trunc x) - x < 1" "trunc x \<le> 0"
proof -
  from assms have t: "trunc x = \<lceil>x\<rceil>" by (simp add: trunc_def)
  show "x \<le> of_int (trunc x)" unfolding t by (rule le_of_int_ceiling)
  show "of_int (trunc x) - x < 1" unfolding t by linarith
  show "trunc x \<le> 0" unfolding t using assms by (simp add: ceiling_le_iff)
qed

lemma trunc_mono: "x \<le> y \<Longrightarrow> trunc x \<le> trunc y"
proof -
  assume xy: "x \<le> y"
  consider "0 \<le> x" | "y < 0" | "x < 0" "0 \<le> y" by linarith
  then show ?thesis
  proof cases
    case 1 with xy show ?thesis by (simp add: trunc_def floor_mono)
  next
    case 2 with xy show ?thesis by (simp add: trunc_def ceiling_mono)
  next
    case 3
    with trunc_neg(3) [of x] trunc_nonneg(3) [of y] show ?thesis by simp
  qed
qed

lemma fl_us_per_day: "fl (of_int us_per_day) = of_int us_per_day"
  by code_simp

lemma fl_minus_us_per_day: "fl (- of_int us_per_day) = - of_int us_per_day"
  by code_simp

lemma fl_day_fraction:
  assumes "- 1 \<le> f" "f \<le> 1"
  shows "- of_int us_per_day \<le> fl (of_int us_per_day * f)"
    "fl (of_int us_per_day * f) \<le> of_int us_per_day"
proof -
  have p: "(0::rat) \<le> of_int us_per_day" by (simp add: us_per_day_def)
  from assms(1) p have "- of_int us_per_day \<le> of_int us_per_day * f"
    using mult_left_mono [of "- 1" f "of_int us_per_day"] by simp
  from fl_mono [OF this] show "- of_int us_per_day \<le> fl (of_int us_per_day * f)"
    by (simp add: fl_minus_us_per_day)
  from assms(2) p have "of_int us_per_day * f \<le> of_int us_per_day"
    using mult_left_mono [of f 1 "of_int us_per_day"] by simp
  from fl_mono [OF this] show "fl (of_int us_per_day * f) \<le> of_int us_per_day"
    by (simp add: fl_us_per_day)
qed

lemma days_us_exact: "days_us x = round_half_even (exact_us x)"
  by (simp add: days_us_def exact_us_def Let_def)

lemma exact_us_mono:
  assumes "x \<le> y"
  shows "exact_us x \<le> exact_us y"
proof (cases "trunc x = trunc y")
  case True
  have p: "(0::rat) \<le> of_int us_per_day" by (simp add: us_per_day_def)
  from assms True have "of_int us_per_day * (x - of_int (trunc x))
      \<le> of_int us_per_day * (y - of_int (trunc y))"
    using p by (simp add: mult_left_mono)
  from fl_mono [OF this] True show ?thesis by (simp add: exact_us_def)
next
  case False
  with trunc_mono [OF assms] have lt: "trunc x + 1 \<le> trunc y" by simp
  then have "(trunc x + 1) * us_per_day \<le> trunc y * us_per_day"
    by (simp add: us_per_day_def)
  then have step: "(of_int (trunc x * us_per_day) :: rat) + of_int us_per_day
      \<le> of_int (trunc y * us_per_day)"
    by (simp only: of_int_add [symmetric] of_int_le_iff) (simp add: algebra_simps)
  show ?thesis
  proof (cases "0 \<le> x")
    case True
    with assms have y: "0 \<le> y" by simp
    from trunc_nonneg [OF True] have "fl (of_int us_per_day * (x - of_int (trunc x)))
        \<le> of_int us_per_day"
      by (intro fl_day_fraction) simp_all
    moreover from trunc_nonneg [OF y]
    have "0 \<le> of_int us_per_day * (y - of_int (trunc y))"
      by (simp add: us_per_day_def)
    then have "0 \<le> fl (of_int us_per_day * (y - of_int (trunc y)))"
      by (rule fl_nonneg)
    ultimately show ?thesis using step by (simp add: exact_us_def)
  next
    case False
    then have x: "x < 0" by simp
    from trunc_neg [OF x] have "of_int us_per_day * (x - of_int (trunc x)) \<le> 0"
      by (simp add: us_per_day_def mult_le_0_iff)
    then have a: "fl (of_int us_per_day * (x - of_int (trunc x))) \<le> 0"
      by (rule fl_nonpos)
    have "- 1 \<le> y - of_int (trunc y)"
      using trunc_nonneg [of y] trunc_neg [of y] by (cases "0 \<le> y") simp_all
    moreover have "y - of_int (trunc y) \<le> 1"
      using trunc_nonneg [of y] trunc_neg [of y] by (cases "0 \<le> y") simp_all
    ultimately have "- of_int us_per_day \<le> fl (of_int us_per_day * (y - of_int (trunc y)))"
      by (rule fl_day_fraction)
    with a step show ?thesis by (simp add: exact_us_def)
  qed
qed

lemma days_us_mono: "x \<le> y \<Longrightarrow> days_us x \<le> days_us y"
  unfolding days_us_exact by (intro rhe_mono exact_us_mono)

lemma closest_reference_segment: "closest_reference u = Inr (segment_reference u)"
  by (simp add: closest_reference_segments segment_reference_def)

lemma estimate_Inr_iff:
  "estimate_account_creation_date u = Inr t \<longleftrightarrow>
     \<bar>fl (of_int (u - fst (segment_reference u)) / 20000000)\<bar> < 2 powi 1024
     \<and> - 999999999 \<le> offset_us (u - fst (segment_reference u)) div us_per_day
     \<and> offset_us (u - fst (segment_reference u)) div us_per_day \<le> 999999999
     \<and> 0 \<le> raw_estimate u \<and> raw_estimate u < max_ordinal * us_per_day
     \<and> t = raw_estimate u"
  by (cases "segment_reference u")
    (auto simp: estimate_account_creation_date_def closest_reference_segment truediv_def
      timedelta_days_def datetime_add_def raw_estimate_def offset_us_def Let_def)

lemma offset_us_mono: "d \<le> e \<Longrightarrow> offset_us d \<le> offset_us e"
proof -
  assume "d \<le> e"
  then have "(of_int d :: rat) / 20000000 \<le> of_int e / 20000000"
    by (simp add: divide_right_mono)
  then show ?thesis
    unfolding offset_us_def by (intro days_us_mono fl_mono)
qed

lemma raw_mono_same:
  "segment_reference a = segment_reference b \<Longrightarrow> a \<le> b \<Longrightarrow> raw_estimate a \<le> raw_estimate b"
  using offset_us_mono [of "a - fst (segment_reference b)" "b - fst (segment_reference b)"]
  by (simp add: raw_estimate_def)

lemma raw_boundaries:
  "raw_estimate 686920751 \<le> raw_estimate 686920752"
  "raw_estimate 1386920751 \<le> raw_estimate 1386920752"
  "raw_estimate 1750000000 \<le> raw_estimate 1750000001"
  by code_simp+

lemma raw_mono0: "a \<le> b \<Longrightarrow> b \<le> 686920751 \<Longrightarrow> raw_estimate a \<le> raw_estimate b"
  by (rule raw_mono_same) (simp_all add: segment_reference_def)

lemma raw_mono1:
  assumes "a \<le> b" "b \<le> 1386920751"
  shows "raw_estimate a \<le> raw_estimate b"
proof -
  consider "b \<le> 686920751" | "686920751 < a" | "a \<le> 686920751" "686920752 \<le> b"
    by linarith
  then show ?thesis
  proof cases
    case 1 with assms show ?thesis by (simp add: raw_mono0)
  next
    case 2 with assms show ?thesis
      by (intro raw_mono_same) (simp_all add: segment_reference_def)
  next
    case 3
    have "raw_estimate a \<le> raw_estimate 686920751" using 3 by (simp add: raw_mono0)
    also have "\<dots> \<le> raw_estimate 686920752" by (rule raw_boundaries)
    also have "\<dots> \<le> raw_estimate b" using 3 assms
      by (intro raw_mono_same) (simp_all add: segment_reference_def)
    finally show ?thesis .
  qed
qed

lemma raw_mono2:
  assumes "a \<le> b" "b \<le> 1750000000"
  shows "raw_estimate a \<le> raw_estimate b"
proof -
  consider "b \<le> 1386920751" | "1386920751 < a" | "a \<le> 1386920751" "1386920752 \<le> b"
    by linarith
  then show ?thesis
  proof cases
    case 1 with assms show ?thesis by (simp add: raw_mono1)
  next
    case 2 with assms show ?thesis
      by (intro raw_mono_same) (simp_all add: segment_reference_def)
  next
    case 3
    have "raw_estimate a \<le> raw_estimate 1386920751" using 3 by (simp add: raw_mono1)
    also have "\<dots> \<le> raw_estimate 1386920752" by (rule raw_boundaries)
    also have "\<dots> \<le> raw_estimate b" using 3 assms
      by (intro raw_mono_same) (simp_all add: segment_reference_def)
    finally show ?thesis .
  qed
qed

lemma raw_mono:
  assumes "a \<le> b"
  shows "raw_estimate a \<le> raw_estimate b"
proof -
  consider "b \<le> 1750000000" | "1750000000 < a" | "a \<le> 1750000000" "1750000001 \<le> b"
    by linarith
  then show ?thesis
  proof cases
    case 1 with assms show ?thesis by (simp add: raw_mono2)
  next
    case 2 with assms show ?thesis
      by (intro raw_mono_same) (simp_all add: segment_reference_def)
  next
    case 3
    have "raw_estimate a \<le> raw_estimate 1750000000" using 3 by (simp add: raw_mono2)
    also have "\<dots> \<le> raw_estimate 1750000001" by (rule raw_boundaries)
    also have "\<dots> \<le> raw_estimate b" using 3 assms
      by (intro raw_mono_same) (simp_all add: segment_reference_def)
    finally show ?thesis .
  qed
qed

lemma raw_values:
  "raw_estimate 0 = 63510480000000000"
  "max_ordinal * us_per_day \<le> raw_estimate 100000000000000"
  by code_simp+

lemma reference_dates:
  "mk_datetime 2013 8 1 = 63510912000000000"
  "mk_datetime 2020 8 13 = 63732873600000000"
  "mk_datetime 2021 5 1 = 63755424000000000"
  "mk_datetime 2022 12 1 = 63805449600000000"
  by code_simp+

lemma fl_values:
  "fl (of_int (- 2000000000) / 20000000) = - 100"
  "fl (of_int 100000000000000 / 20000000) = 5000000"
  by code_simp+

lemma segment_reference_bounds:
  "0 \<le> snd (segment_reference u)" "snd (segment_reference u) < max_ordinal * us_per_day"
  "100000000 \<le> fst (segment_reference u)" "fst (segment_reference u) \<le> 2000000000"
  by (simp_all add: segment_reference_def reference_dates max_ordinal_def us_per_day_def)

lemma quotient_bounded:
  assumes "- 2000000000 \<le> d" "d \<le> 100000000000000"
  shows "\<bar>fl (of_int d / 20000000)\<bar> < 2 powi 1024"
proof -
  from assms have "(of_int (- 2000000000) :: rat) / 20000000 \<le> of_int d / 20000000"
    "(of_int d :: rat) / 20000000 \<le> of_int 100000000000000 / 20000000"
    by (simp_all add: divide_right_mono)
  then have "- 100 \<le> fl (of_int d / 20000000)" "fl (of_int d / 20000000) \<le> 5000000"
    using fl_mono [of "of_int (- 2000000000) / 20000000" "of_int d / 20000000"]
      fl_mono [of "of_int d / 20000000" "of_int 100000000000000 / 20000000"]
    by (simp_all only: fl_values)
  then have "\<bar>fl (of_int d / 20000000)\<bar> \<le> 2 ^ 23" by simp
  also have "(2::rat) ^ 23 < 2 ^ 1024" by (rule power_strict_increasing) simp_all
  finally show ?thesis by simp
qed

lemma estimate_defined:
  assumes "0 \<le> u" "raw_estimate u < max_ordinal * us_per_day"
  shows "estimate_account_creation_date u = Inr (raw_estimate u)"
proof -
  let ?c = "fst (segment_reference u)" and ?t = "snd (segment_reference u)"
  have lo: "0 \<le> raw_estimate u"
    using raw_mono [OF assms(1)] by (simp add: raw_values)
  have "u < 100000000000000"
  proof (rule ccontr)
    assume "\<not> u < 100000000000000"
    then have "raw_estimate 100000000000000 \<le> raw_estimate u" by (intro raw_mono) simp
    with raw_values(2) assms(2) show False by simp
  qed
  with assms(1) segment_reference_bounds(3,4) [of u]
  have q: "\<bar>fl (of_int (u - ?c) / 20000000)\<bar> < 2 powi 1024"
    by (intro quotient_bounded) simp_all
  have off: "offset_us (u - ?c) = raw_estimate u - ?t"
    by (simp add: raw_estimate_def)
  from lo assms(2) segment_reference_bounds(1,2) [of u]
  have "- 315537897600000000 < offset_us (u - ?c)" "offset_us (u - ?c) < 315537897600000000"
    unfolding off by (simp_all add: max_ordinal_def us_per_day_def)
  then have r: "- 999999999 \<le> offset_us (u - ?c) div us_per_day"
    "offset_us (u - ?c) div us_per_day \<le> 999999999"
    unfolding us_per_day_def by linarith+
  from q r lo assms(2) show ?thesis by (simp add: estimate_Inr_iff)
qed

lemma estimate_range:
  "0 \<le> u \<Longrightarrow> u \<le> 58273399999999 \<Longrightarrow>
     estimate_account_creation_date u = Inr (raw_estimate u)"
proof -
  assume u: "0 \<le> u" "u \<le> 58273399999999"
  have "raw_estimate 58273399999999 < max_ordinal * us_per_day" by code_simp
  with raw_mono [OF u(2)] have "raw_estimate u < max_ordinal * us_per_day" by simp
  with u(1) show ?thesis by (rule estimate_defined)
qed

lemma estimate_overflow:
  "estimate_account_creation_date 58273400000000 = Inl OverflowError"
  by code_simp


section \<open>The claims\<close>

text \<open>
  C1. When the user lookup raises \<^verbatim>\<open>PeerIdInvalid\<close>, the request fails with status
  403, the detail says that the user must start the bot or share a group or channel with
  it, and the only client call made is the user lookup: no chat lookup is attempted.
\<close>

theorem C1_peer_invalid_is_403_without_chat_lookup:
  assumes "lookup_key identifier username = Inr key"
    and "get_users app_bot (parse_target key) = Inl (PeerIdInvalid m)"
  shows "get_user_info app_bot identifier username
           = ([GetUsers (parse_target key)], Inl (HTTPException 403 no_access_detail))
         \<and> (\<forall>t. GetChat t \<notin> set (fst (get_user_info app_bot identifier username)))
         \<and> py_in ''The user must start the bot'' no_access_detail
         \<and> py_in ''share a common group/channel with the bot'' no_access_detail"
proof -
  have r: "get_user_info app_bot identifier username
           = ([GetUsers (parse_target key)], Inl (HTTPException 403 no_access_detail))"
    using assms by (simp add: get_user_info_def)
  have a: "py_in ''The user must start the bot'' no_access_detail" by code_simp
  have b: "py_in ''share a common group/channel with the bot'' no_access_detail" by code_simp
  from r a b show ?thesis by simp
qed

theorem C1_witness:
  "get_user_info (group_client
       \<lparr>get_users := (\<lambda>t. Inl (PeerIdInvalid ''PEER_ID_INVALID''))\<rparr>) (Some ''777000'') None
     = ([GetUsers (IntTarget 777000)], Inl (HTTPException 403 no_access_detail))"
proof -
  let ?b = "group_client \<lparr>get_users := (\<lambda>t. Inl (PeerIdInvalid ''PEER_ID_INVALID''))\<rparr>"
  have k: "lookup_key (Some ''777000'') None = Inr ''777000''"
    by (simp add: lookup_key_def py_or_def truthy_def lstrip_at_def)
  have g: "get_users ?b (parse_target ''777000'') = Inl (PeerIdInvalid ''PEER_ID_INVALID'')"
    by simp
  have t: "parse_target ''777000'' = IntTarget 777000"
    by code_simp
  from C1_peer_invalid_is_403_without_chat_lookup [OF k g] t show ?thesis by simp
qed




text \<open>
  C3, as the code has it. For an identifier that begins with "@", the lookup key is the
  identifier without all of its leading "@" characters: the key does not begin with "@".
\<close>

theorem C3_every_leading_at_is_stripped:
  assumes "prefix ''@'' s"
  shows "\<exists>n key. lookup_key (Some s) username = Inr key \<and> 0 < n
           \<and> s = replicate n (CHR ''@'') @ key \<and> \<not> prefix ''@'' key"
proof -
  from assms obtain r where s: "s = CHR ''@'' # r"
    by (auto simp: prefix_def)
  let ?n = "length (takeWhile (\<lambda>c. c = CHR ''@'') s)"
  have key: "lookup_key (Some s) username = Inr (lstrip_at s)"
    using s by (simp add: lookup_key_def py_or_def truthy_def)
  have "0 < ?n" using s by simp
  with key lstrip_at_decomp [of s] lstrip_at_no_at [of s] show ?thesis
    by blast
qed

theorem C3_witness:
  "prefix ''@'' ''@@bob''
   \<and> (\<exists>n key. lookup_key (Some ''@@bob'') None = Inr key \<and> 0 < n
           \<and> ''@@bob'' = replicate n (CHR ''@'') @ key \<and> \<not> prefix ''@'' key)"
  using C3_every_leading_at_is_stripped [of "''@@bob''" None] by simp

text \<open>
  C3 as stated fails: the identifier "@@bob" gives the key "bob", not "@bob".
\<close>

theorem C3_counterexample:
  "lookup_key (Some ''@@bob'') None = Inr ''bob''
   \<and> lookup_key (Some ''@@bob'') None \<noteq> Inr ''@bob''"
  by (simp add: lookup_key_def py_or_def truthy_def lstrip_at_def)



text \<open>
  C6. A data-center id that is not a key of the table, 6 among them, and a missing id give
  the text "Unknown"; the lookup has no failing case, so changing the id never changes
  whether the user response is an error; the id 1 gives a text that contains "Miami".
\<close>

theorem C6_dc_location:
  "(k \<notin> fst ` set DC_LOCATIONS \<longrightarrow> dc_location (Some k) = ''Unknown'')
   \<and> dc_location None = ''Unknown''
   \<and> dc_location (Some 6) = ''Unknown''
   \<and> isl (respond_user app_bot (u\<lparr>u_dc_id := d\<rparr>)) = isl (respond_user app_bot u)
   \<and> py_in ''Miami'' (dc_location (Some 1))"
proof -
  have "k \<notin> fst ` set DC_LOCATIONS \<Longrightarrow> map_of DC_LOCATIONS k = None"
    by (simp add: map_of_eq_None_iff)
  then have a: "k \<notin> fst ` set DC_LOCATIONS \<longrightarrow> dc_location (Some k) = ''Unknown''"
    by (simp add: dc_location_def)
  have b: "dc_location None = ''Unknown''"
    by (simp add: dc_location_def)
  have c: "dc_location (Some 6) = ''Unknown''"
    by code_simp
  have d: "py_in ''Miami'' (dc_location (Some 1))"
    by code_simp
  have e: "isl (respond_user app_bot (u\<lparr>u_dc_id := d\<rparr>)) = isl (respond_user app_bot u)"
    by (simp add: respond_user_def split: sum.splits)
  from a b c d e show ?thesis by blast
qed

theorem C6_witness:
  "22 \<notin> fst ` set DC_LOCATIONS \<and> dc_location (Some 22) = ''Unknown''"
proof -
  have "22 \<notin> fst ` set DC_LOCATIONS" by (simp add: DC_LOCATIONS_def)
  with C6_dc_location [of 22] show ?thesis by blast
qed

text \<open>
  C7 at a failing input. A supergroup with a username and no photo is given the picture
  URL, in the helper and in the whole response, where the claim asks for the placeholder.
\<close>

theorem C7_group_without_photo_gets_url:
  "\<not> c_photo group_without_photo
   \<and> chat_profile_pic group_without_photo = ''https://t.me/i/userpic/320/studygroup.jpg''
   \<and> (\<exists>r. snd (get_user_info group_client (Some ''studygroup'') None) = Inr r
          \<and> py_in ''Profile Pic URL: https://t.me/i/userpic/320/studygroup.jpg'' r
          \<and> \<not> py_in ''No Profile Picture'' r)"
proof -
  have a: "\<not> c_photo group_without_photo" by (simp add: group_without_photo_def)
  have b: "chat_profile_pic group_without_photo = ''https://t.me/i/userpic/320/studygroup.jpg''"
    by code_simp
  have c: "case snd (get_user_info group_client (Some ''studygroup'') None) of
             Inl e \<Rightarrow> False
           | Inr r \<Rightarrow> py_in ''Profile Pic URL: https://t.me/i/userpic/320/studygroup.jpg'' r
          \<and> \<not> py_in ''No Profile Picture'' r"
    by code_simp
  from c have "\<exists>r. snd (get_user_info group_client (Some ''studygroup'') None) = Inr r
          \<and> py_in ''Profile Pic URL: https://t.me/i/userpic/320/studygroup.jpg'' r
          \<and> \<not> py_in ''No Profile Picture'' r"
    by (auto split: sum.splits)
  with a b show ?thesis by blast
qed




text \<open>
  C9, as the code has it. When both parameters are given, the identifier is the lookup
  key when it is not the empty string, and the username is when the identifier is empty.
\<close>

theorem C9_identifier_wins_unless_empty:
  "lookup_key (Some i) (Some u) = Inr (lstrip_at (if i \<noteq> [] then i else u))"
  by (simp add: lookup_key_def py_or_def truthy_def)

theorem C9_witness:
  "lookup_key (Some ''alice'') (Some ''bob'') = Inr ''alice''"
  using C9_identifier_wins_unless_empty [of "''alice''" "''bob''"]
  by (simp add: lstrip_at_def)

text \<open>
  C9 as stated fails: with an empty identifier and the username "bob", the key is "bob".
\<close>

theorem C9_counterexample:
  "lookup_key (Some '''') (Some ''bob'') = Inr ''bob''
   \<and> lookup_key (Some '''') (Some ''bob'') \<noteq> Inr (lstrip_at '''')"
  by (simp add: lookup_key_def py_or_def truthy_def lstrip_at_def)



text \<open>
  C10. The estimate does not decrease with the id, also where the nearest reference point
  changes: for ids \<open>0 \<le> a \<le> b\<close>, when the estimator returns a date for \<open>b\<close> it
  returns one for \<open>a\<close> that is not later. It returns a date for every id from 0 to
  58273399999999; from 58273400000000 on the date would lie after the year 9999 and
  Python raises \<^verbatim>\<open>OverflowError\<close>.
\<close>

theorem C10_estimate_monotone:
  "(0 \<le> a \<and> a \<le> b \<and> estimate_account_creation_date b = Inr tb \<longrightarrow>
      (\<exists>ta. estimate_account_creation_date a = Inr ta \<and> ta \<le> tb))
   \<and> (0 \<le> a \<and> a \<le> b \<and> b \<le> 58273399999999 \<longrightarrow>
      (\<exists>ta tb. estimate_account_creation_date a = Inr ta
         \<and> estimate_account_creation_date b = Inr tb \<and> ta \<le> tb))"
proof -
  have m: "a \<le> b \<Longrightarrow> raw_estimate a \<le> raw_estimate b" by (rule raw_mono)
  have 1: "\<exists>ta. estimate_account_creation_date a = Inr ta \<and> ta \<le> tb"
    if h: "0 \<le> a" "a \<le> b" "estimate_account_creation_date b = Inr tb"
  proof -
    from h(3) have b: "tb = raw_estimate b" "raw_estimate b < max_ordinal * us_per_day"
      by (simp_all add: estimate_Inr_iff)
    with m [OF h(2)] have "raw_estimate a < max_ordinal * us_per_day" by simp
    with h(1) have "estimate_account_creation_date a = Inr (raw_estimate a)"
      by (rule estimate_defined)
    with m [OF h(2)] b show ?thesis by simp
  qed
  have 2: "\<exists>ta tb. estimate_account_creation_date a = Inr ta
         \<and> estimate_account_creation_date b = Inr tb \<and> ta \<le> tb"
    if h: "0 \<le> a" "a \<le> b" "b \<le> 58273399999999"
  proof -
    from h have "estimate_account_creation_date a = Inr (raw_estimate a)"
      "estimate_account_creation_date b = Inr (raw_estimate b)"
      by (simp_all add: estimate_range)
    with m [OF h(2)] show ?thesis by simp
  qed
  from 1 2 show ?thesis by blast
qed

theorem C10_witness:
  "estimate_account_creation_date 686920752 = Inr 63730338102360000
   \<and> (\<exists>ta. estimate_account_creation_date 686920751 = Inr ta \<and> ta \<le> 63730338102360000)"
proof -
  have b: "estimate_account_creation_date 686920752 = Inr 63730338102360000"
    by code_simp
  with C10_estimate_monotone [of 686920751 686920752 63730338102360000] show ?thesis
    by simp
qed

end
